theory Spec2Isabelle
  imports Complex_Main
begin

section \<open>Strings and the pattern matching of the link classifier\<close>

text \<open>
  A link is a JavaScript string. Every pattern of \<^verbatim>\<open>src/types.ts\<close> is made of ASCII
  characters only, so a link is modelled by the list of its bytes in UTF-8: a byte of a
  character outside ASCII is at least 128 and matches no character of any pattern, exactly
  as the UTF-16 code unit of that character matches none.
\<close>

definition canonicalize :: "char \<Rightarrow> char" where
  \<comment> \<open>the case folding of a regular expression with the flag \<^verbatim>\<open>i\<close> (and no \<^verbatim>\<open>u\<close>):
      a lower-case ASCII letter becomes its capital, every other byte is kept\<close>
  "canonicalize c =
     (if 97 \<le> (of_char c :: nat) \<and> (of_char c :: nat) \<le> 122
      then char_of ((of_char c :: nat) - 32) else c)"

fun matches_ci :: "string \<Rightarrow> string \<Rightarrow> bool" where
  \<comment> \<open>the literal \<open>pat\<close> matches at the start of the input, letters compared without case\<close>
  "matches_ci [] s = True"
| "matches_ci (p # ps) [] = False"
| "matches_ci (p # ps) (c # cs) = (canonicalize p = canonicalize c \<and> matches_ci ps cs)"

fun regex_test_ci :: "string list \<Rightarrow> string \<Rightarrow> bool" where
  \<comment> \<open>\<^verbatim>\<open>/(?:a1|a2|...)/i.test(s)\<close> for literal alternatives: a match may start at any index\<close>
  "regex_test_ci alts [] = list_ex (\<lambda>a. matches_ci a []) alts"
| "regex_test_ci alts (c # cs) =
     (list_ex (\<lambda>a. matches_ci a (c # cs)) alts \<or> regex_test_ci alts cs)"

definition isYouTubeLink :: "string \<Rightarrow> bool" where
  \<comment> \<open>\<^verbatim>\<open>/(?:youtube\.com|youtu\.be)/i.test(url)\<close>\<close>
  "isYouTubeLink url = regex_test_ci [''youtube.com'', ''youtu.be''] url"

definition isMegaLink :: "string \<Rightarrow> bool" where
  \<comment> \<open>\<^verbatim>\<open>/mega\.nz/i.test(url)\<close>\<close>
  "isMegaLink url = regex_test_ci [''mega.nz''] url"

datatype link_type = youtube | mega | direct

definition getLinkType :: "string \<Rightarrow> link_type" where
  "getLinkType url =
     (if isYouTubeLink url then youtube
      else if isMegaLink url then mega
      else direct)"

datatype controller = YouTubePlayer | MegaPlayer | DirectVideoPlayer

definition VideoPlayer :: "string \<Rightarrow> controller" where
  \<comment> \<open>the component that \<^verbatim>\<open>VideoPlayer\<close> returns for \<^verbatim>\<open>props.item.link\<close>\<close>
  "VideoPlayer link =
     (if isYouTubeLink link then YouTubePlayer
      else if isMegaLink link then MegaPlayer
      else DirectVideoPlayer)"

text \<open>
  The two definitions below follow the words of the specification, not the code: the
  controller that belongs to each verdict of the classifier, and what it means for a link
  to carry a host signature (somewhere in the link, letters compared without case).
\<close>

fun controller_of :: "link_type \<Rightarrow> controller" where
  "controller_of youtube = YouTubePlayer"
| "controller_of mega = MegaPlayer"
| "controller_of direct = DirectVideoPlayer"

definition has_signature :: "string \<Rightarrow> string \<Rightarrow> bool" where
  "has_signature sig url =
     (\<exists>pre post. map canonicalize url = pre @ map canonicalize sig @ post)"

subsection \<open>String operations of getMegaEmbedUrl\<close>

fun startsWith :: "string \<Rightarrow> string \<Rightarrow> bool" where
  \<comment> \<open>\<open>startsWith s pat\<close>: the literal \<open>pat\<close> stands at the start of \<open>s\<close>\<close>
  "startsWith s [] = True"
| "startsWith [] (p # ps) = False"
| "startsWith (c # cs) (p # ps) = (c = p \<and> startsWith cs ps)"

fun js_includes :: "string \<Rightarrow> string \<Rightarrow> bool" where
  \<comment> \<open>\<^verbatim>\<open>s.includes(pat)\<close>\<close>
  "js_includes [] pat = startsWith [] pat"
| "js_includes (c # cs) pat = (startsWith (c # cs) pat \<or> js_includes cs pat)"

fun js_replace :: "string \<Rightarrow> string \<Rightarrow> string \<Rightarrow> string" where
  \<comment> \<open>\<^verbatim>\<open>s.replace(pat, rep)\<close> for a string pattern: the first occurrence only
      (\<open>rep\<close> holds no dollar sign, so it is inserted as it is)\<close>
  "js_replace [] pat rep = (if startsWith [] pat then rep else [])"
| "js_replace (c # cs) pat rep =
     (if startsWith (c # cs) pat then rep @ drop (length pat) (c # cs)
      else c # js_replace cs pat rep)"

datatype mode = Video | Audio

definition getMegaEmbedUrl :: "string \<Rightarrow> mode \<Rightarrow> string" where
  \<comment> \<open>the second parameter (\<^verbatim>\<open>_mode\<close> in the source) is not used\<close>
  "getMegaEmbedUrl url the_mode =
     (if js_includes url ''mega.nz/embed/'' then url
      else if js_includes url ''mega.nz/file/''
        then js_replace url ''mega.nz/file/'' ''mega.nz/embed/''
      else url)"

subsection \<open>The regular expression of getYTVideoId and getYouTubeVideoId\<close>

text \<open>
  Both functions run the same case-sensitive expression
  \<^verbatim>\<open>/(?:youtube\.com\/(?:watch\?v=|embed\/)|youtu\.be\/)([a-zA-Z0-9_-]{11})/\<close>
  and return its group 1, or the empty string when nothing matches.
\<close>

definition isIdChar :: "char \<Rightarrow> bool" where
  \<comment> \<open>the class \<^verbatim>\<open>[a-zA-Z0-9_-]\<close>\<close>
  "isIdChar c =
     (let n = (of_char c :: nat) in
        (97 \<le> n \<and> n \<le> 122) \<or> (65 \<le> n \<and> n \<le> 90) \<or> (48 \<le> n \<and> n \<le> 57)
        \<or> c = CHR ''_'' \<or> c = CHR ''-'')"

fun literal :: "string \<Rightarrow> string \<Rightarrow> string option" where
  \<comment> \<open>a literal of the expression: the input behind it when it stands at the start\<close>
  "literal [] s = Some s"
| "literal (p # ps) [] = None"
| "literal (p # ps) (c # cs) = (if p = c then literal ps cs else None)"

definition group1 :: "string \<Rightarrow> string option" where
  \<comment> \<open>\<^verbatim>\<open>([a-zA-Z0-9_-]{11})\<close>: exactly eleven characters of the class\<close>
  "group1 s =
     (if 11 \<le> length s \<and> list_all isIdChar (take 11 s) then Some (take 11 s) else None)"

definition match_here :: "string \<Rightarrow> string option" where
  \<comment> \<open>a match that starts at the first character; the alternatives are tried in the
      order of the expression, the next one when the rest fails behind the earlier one\<close>
  "match_here s =
     (case Option.bind (Option.bind (literal ''youtube.com/'' s) (literal ''watch?v='')) group1 of
        Some g \<Rightarrow> Some g
      | None \<Rightarrow>
     (case Option.bind (Option.bind (literal ''youtube.com/'' s) (literal ''embed/'')) group1 of
        Some g \<Rightarrow> Some g
      | None \<Rightarrow> Option.bind (literal ''youtu.be/'' s) group1))"

fun regex_match :: "string \<Rightarrow> string option" where
  \<comment> \<open>\<^verbatim>\<open>url.match(...)\<close>: the match with the leftmost start; the result is its group 1\<close>
  "regex_match [] = match_here []"
| "regex_match (c # cs) =
     (case match_here (c # cs) of Some g \<Rightarrow> Some g | None \<Rightarrow> regex_match cs)"

definition getYouTubeVideoId :: "string \<Rightarrow> string" where
  \<comment> \<open>\<^verbatim>\<open>src/types.ts\<close>\<close>
  "getYouTubeVideoId url = (case regex_match url of Some g \<Rightarrow> g | None \<Rightarrow> [])"

definition getYTVideoId :: "string \<Rightarrow> string" where
  \<comment> \<open>\<^verbatim>\<open>src/components/VideoPlayer.tsx\<close>\<close>
  "getYTVideoId url = (case regex_match url of Some m \<Rightarrow> m | None \<Rightarrow> [])"

text \<open>
  In the words of the specification: the three accepted shapes, and a link that carries
  an identifier in one of them.
\<close>

definition shapes :: "string list" where
  "shapes = [''youtube.com/watch?v='', ''youtube.com/embed/'', ''youtu.be/'']"

definition embed_id :: "string \<Rightarrow> bool" where
  "embed_id ident = (length ident = 11 \<and> list_all isIdChar ident)"

definition shape_at :: "string \<Rightarrow> string \<Rightarrow> bool" where
  \<comment> \<open>the text starts with an accepted shape that holds the identifier\<close>
  "shape_at s ident =
     (embed_id ident \<and> (\<exists>post. list_ex (\<lambda>shape. s = shape @ ident @ post) shapes))"

definition carries :: "string \<Rightarrow> string \<Rightarrow> bool" where
  \<comment> \<open>somewhere in the link stands an accepted shape that holds the identifier\<close>
  "carries url ident = (\<exists>pre rest. url = pre @ rest \<and> shape_at rest ident)"

section \<open>The native players\<close>

text \<open>
  DirectVideoPlayer (\<^verbatim>\<open>VideoPlayer.tsx\<close>) and AudioPlayer (\<^verbatim>\<open>AudioPlayer.tsx\<close>) keep
  their session in React state and drive a media element of the platform. The state is a
  record, an event handler is a function from the state at the last render to the state
  at the next one, and the media element is a second record that the handlers reach
  through a reference, which is empty (\<open>None\<close>) while no element is mounted.

  Numbers are real numbers: the volume handlers compare and copy volumes, and the seek
  computes one quotient and one product, which are taken exactly. A quotient or a
  product that JavaScript gives as an infinity or as NaN is kept apart from the numbers.
\<close>

datatype jsnum = NaN | NegInf | Fin real | PosInf

definition js_div :: "real \<Rightarrow> real \<Rightarrow> jsnum" where
  \<comment> \<open>\<^verbatim>\<open>a / b\<close> for finite numbers (a zero divisor is the positive zero of a width)\<close>
  "js_div a b =
     (if b = 0 then (if a = 0 then NaN else if 0 < a then PosInf else NegInf)
      else Fin (a / b))"

fun Math_min1 :: "jsnum \<Rightarrow> jsnum" where
  \<comment> \<open>\<^verbatim>\<open>Math.min(1, x)\<close>\<close>
  "Math_min1 NaN = NaN"
| "Math_min1 NegInf = NegInf"
| "Math_min1 (Fin x) = Fin (min 1 x)"
| "Math_min1 PosInf = Fin 1"

fun Math_max0 :: "jsnum \<Rightarrow> jsnum" where
  \<comment> \<open>\<^verbatim>\<open>Math.max(0, x)\<close>\<close>
  "Math_max0 NaN = NaN"
| "Math_max0 NegInf = Fin 0"
| "Math_max0 (Fin x) = Fin (max 0 x)"
| "Math_max0 PosInf = PosInf"

fun js_times :: "jsnum \<Rightarrow> jsnum \<Rightarrow> jsnum" where
  \<comment> \<open>\<^verbatim>\<open>x * y\<close>\<close>
  "js_times (Fin x) (Fin y) = Fin (x * y)"
| "js_times (Fin x) PosInf = (if x = 0 then NaN else if 0 < x then PosInf else NegInf)"
| "js_times (Fin x) NegInf = (if x = 0 then NaN else if 0 < x then NegInf else PosInf)"
| "js_times PosInf (Fin y) = (if y = 0 then NaN else if 0 < y then PosInf else NegInf)"
| "js_times NegInf (Fin y) = (if y = 0 then NaN else if 0 < y then NegInf else PosInf)"
| "js_times PosInf PosInf = PosInf"
| "js_times NegInf NegInf = PosInf"
| "js_times PosInf NegInf = NegInf"
| "js_times NegInf PosInf = NegInf"
| "js_times NaN y = NaN"
| "js_times x NaN = NaN"

definition falsy :: "jsnum \<Rightarrow> bool" where
  \<comment> \<open>\<^verbatim>\<open>!x\<close> for a number: zero and NaN\<close>
  "falsy x = (x = NaN \<or> x = Fin 0)"

datatype js_error = TypeError

subsection \<open>The media element\<close>

record media_element =
  src :: string
  paused :: bool
  el_currentTime :: real
  el_duration :: jsnum
  el_volume :: real
  el_muted :: bool
  el_playbackRate :: real
  play_calls :: nat

definition pause :: "media_element \<Rightarrow> media_element" where
  "pause el = el\<lparr>paused := True\<rparr>"

definition load :: "media_element \<Rightarrow> media_element" where
  \<comment> \<open>the element starts over on its source: position 0, duration unknown, default rate\<close>
  "load el = el\<lparr>paused := True, el_currentTime := 0, el_duration := NaN, el_playbackRate := 1\<rparr>"

definition play :: "media_element \<Rightarrow> media_element" where
  \<comment> \<open>\<^verbatim>\<open>a.play().catch(() => {})\<close>: the request is counted; whether the platform grants
      it is not modelled, and a refusal is swallowed by the handler\<close>
  "play el = el\<lparr>play_calls := Suc (play_calls el)\<rparr>"

definition set_currentTime :: "jsnum \<Rightarrow> media_element \<Rightarrow> js_error + media_element" where
  \<comment> \<open>the setter of \<^verbatim>\<open>currentTime\<close> throws on a value that is not finite\<close>
  "set_currentTime t el = (case t of Fin x \<Rightarrow> Inr (el\<lparr>el_currentTime := x\<rparr>) | _ \<Rightarrow> Inl TypeError)"

record rect =
  rect_left :: real
  rect_width :: real

record host =
  onEnded_calls :: nat

definition onEnded :: "host \<Rightarrow> host" where
  \<comment> \<open>the callback of the hosting page, counted\<close>
  "onEnded h = h\<lparr>onEnded_calls := Suc (onEnded_calls h)\<rparr>"

subsection \<open>React state\<close>

record player_state =
  playing :: bool
  currentTime :: real
  duration :: jsnum
  volume :: real
  prevVolume :: real
  muted :: bool
  loading :: bool
  buffered :: real

record video_state = player_state +
  isFullscreen :: bool
  showControls :: bool
  showSettings :: bool
  playbackRate :: real
  hoverTime :: "real option"
  hoverPos :: real
  detectedQuality :: string

record audio_state = player_state +
  repeat :: bool
  speed :: real
  showSpeed :: bool
  imgLoaded :: bool
  imgError :: bool

definition DirectVideoPlayer_init :: video_state where
  \<comment> \<open>the arguments of \<^verbatim>\<open>useState\<close> in DirectVideoPlayer\<close>
  "DirectVideoPlayer_init =
     \<lparr>playing = False, currentTime = 0, duration = Fin 0, volume = 0.75, prevVolume = 0.75,
      muted = False, loading = True, buffered = 0,
      isFullscreen = False, showControls = True, showSettings = False, playbackRate = 1,
      hoverTime = None, hoverPos = 0, detectedQuality = []\<rparr>"

definition AudioPlayer_init :: audio_state where
  \<comment> \<open>the arguments of \<^verbatim>\<open>useState\<close> in AudioPlayer\<close>
  "AudioPlayer_init =
     \<lparr>playing = False, currentTime = 0, duration = Fin 0, volume = 0.75, prevVolume = 0.75,
      muted = False, loading = True, buffered = 0,
      repeat = False, speed = 1, showSpeed = False, imgLoaded = False, imgError = False\<rparr>"

subsection \<open>Handlers that both players have, word for word\<close>

definition handleVolumeChange :: "real \<Rightarrow> 'a player_state_scheme \<Rightarrow> 'a player_state_scheme" where
  \<comment> \<open>\<open>v\<close> is \<^verbatim>\<open>parseFloat(e.target.value)\<close> of the range input\<close>
  "handleVolumeChange v s =
     (let s1 = s\<lparr>volume := v\<rparr>;
          s2 = s1\<lparr>muted := (v = 0)\<rparr>
      in if 0 < v then s2\<lparr>prevVolume := v\<rparr> else s2)"

definition toggleMute :: "'a player_state_scheme \<Rightarrow> 'a player_state_scheme" where
  "toggleMute s =
     (if muted s \<or> volume s = 0
      then (let r = (if 0 < prevVolume s then prevVolume s else 0.5)
            in s\<lparr>volume := r, muted := False\<rparr>)
      else s\<lparr>prevVolume := volume s, muted := True\<rparr>)"

definition handleProgressClick ::
  "real \<Rightarrow> media_element option \<Rightarrow> rect option \<Rightarrow> 'a player_state_scheme
   \<Rightarrow> js_error + ('a player_state_scheme \<times> media_element option)" where
  \<comment> \<open>\<open>clientX\<close> of the click, the element and the bar behind the two references (the
      rectangle is \<^verbatim>\<open>bar.getBoundingClientRect()\<close>)\<close>
  "handleProgressClick clientX ref bar s =
     (case ref of
        None \<Rightarrow> Inr (s, ref)
      | Some a \<Rightarrow>
     (case bar of
        None \<Rightarrow> Inr (s, ref)
      | Some r \<Rightarrow>
          if falsy (el_duration a) then Inr (s, ref)
          else
            (case set_currentTime
                    (js_times
                       (Math_max0 (Math_min1 (js_div (clientX - rect_left r) (rect_width r))))
                       (el_duration a)) a of
               Inl e \<Rightarrow> Inl e
             | Inr a' \<Rightarrow> Inr (s\<lparr>currentTime := el_currentTime a'\<rparr>, Some a'))))"

subsection \<open>DirectVideoPlayer\<close>

definition DirectVideoPlayer_load ::
  "string \<Rightarrow> media_element option \<Rightarrow> video_state \<Rightarrow> video_state \<times> media_element option" where
  \<comment> \<open>the effect \<^verbatim>\<open>// Load new video\<close>, run when \<^verbatim>\<open>item.id\<close> changes; \<open>link\<close> is
      \<^verbatim>\<open>item.link\<close>\<close>
  "DirectVideoPlayer_load link ref s =
     (case ref of
        None \<Rightarrow> (s, ref)
      | Some video \<Rightarrow>
          (s\<lparr>loading := True, playing := False, currentTime := 0, duration := Fin 0,
             buffered := 0, showSettings := False, detectedQuality := []\<rparr>,
           Some ((load ((pause video)\<lparr>src := link\<rparr>))
                   \<lparr>el_volume := volume s, el_muted := False,
                    el_playbackRate := playbackRate s\<rparr>)))"

definition DirectVideoPlayer_sync_volume :: "video_state \<Rightarrow> media_element \<Rightarrow> media_element" where
  \<comment> \<open>the effect \<^verbatim>\<open>// Sync volume\<close>, run when \<^verbatim>\<open>volume\<close> or \<^verbatim>\<open>muted\<close> changes\<close>
  "DirectVideoPlayer_sync_volume s v =
     v\<lparr>el_volume := (if muted s then 0 else volume s), el_muted := False\<rparr>"

definition arrowup :: "video_state \<Rightarrow> video_state" where
  \<comment> \<open>the key handler, \<^verbatim>\<open>case 'arrowup'\<close>\<close>
  "arrowup s = s\<lparr>volume := min (volume s + 0.1) 1, muted := False\<rparr>"

definition arrowdown :: "video_state \<Rightarrow> video_state" where
  \<comment> \<open>the key handler, \<^verbatim>\<open>case 'arrowdown'\<close>\<close>
  "arrowdown s =
     (let n = max (volume s - 0.1) 0
      in if n = 0 then s\<lparr>muted := True, volume := n\<rparr> else s\<lparr>volume := n\<rparr>)"

subsection \<open>AudioPlayer\<close>

definition AudioPlayer_reset_image :: "audio_state \<Rightarrow> audio_state" where
  \<comment> \<open>the effect \<^verbatim>\<open>// Reset image state when item changes\<close>\<close>
  "AudioPlayer_reset_image s = s\<lparr>imgLoaded := False, imgError := False\<rparr>"

definition AudioPlayer_load ::
  "string \<Rightarrow> media_element option \<Rightarrow> audio_state \<Rightarrow> audio_state \<times> media_element option" where
  \<comment> \<open>the effect \<^verbatim>\<open>// Load new track\<close>, run when \<^verbatim>\<open>item.id\<close> changes\<close>
  "AudioPlayer_load link ref s =
     (case ref of
        None \<Rightarrow> (s, ref)
      | Some audio \<Rightarrow>
          if isMegaLink link then (s, ref)
          else
            (s\<lparr>loading := True, playing := False, currentTime := 0, duration := Fin 0,
               buffered := 0, showSpeed := False\<rparr>,
             Some ((load ((pause audio)\<lparr>src := link\<rparr>))
                     \<lparr>el_volume := volume s, el_playbackRate := speed s\<rparr>)))"

definition AudioPlayer_item_change ::
  "string \<Rightarrow> media_element option \<Rightarrow> audio_state \<Rightarrow> audio_state \<times> media_element option" where
  \<comment> \<open>both effects on \<^verbatim>\<open>item.id\<close>, in the order of the component\<close>
  "AudioPlayer_item_change link ref s = AudioPlayer_load link ref (AudioPlayer_reset_image s)"

definition AudioPlayer_sync_volume :: "audio_state \<Rightarrow> media_element \<Rightarrow> media_element" where
  \<comment> \<open>the effect \<^verbatim>\<open>// CRITICAL: Always sync volume\<close>\<close>
  "AudioPlayer_sync_volume s a = a\<lparr>el_volume := (if muted s then 0 else volume s)\<rparr>"

definition toggleRepeat :: "audio_state \<Rightarrow> audio_state" where
  \<comment> \<open>the repeat button: \<^verbatim>\<open>setRepeat(!repeat)\<close>\<close>
  "toggleRepeat s = s\<lparr>repeat := \<not> repeat s\<rparr>"

definition handleEnded ::
  "audio_state \<Rightarrow> media_element option \<Rightarrow> host \<Rightarrow> media_element option \<times> host" where
  "handleEnded s ref h =
     (if repeat s
      then (case ref of
              None \<Rightarrow> (ref, h)
            | Some a \<Rightarrow> (Some (play (a\<lparr>el_currentTime := 0\<rparr>)), h))
      else (ref, onEnded h))"

subsection \<open>The states that the players reach\<close>

text \<open>
  The places of the two players that write \<^verbatim>\<open>volume\<close>, \<^verbatim>\<open>prevVolume\<close> or \<^verbatim>\<open>muted\<close> are
  the range input (its value lies between \<^verbatim>\<open>min={0}\<close> and \<^verbatim>\<open>max={1}\<close>), the mute button
  and key, and in the video player the two arrow keys. Every other handler and effect
  writes other fields only; the last rule stands for all of them.
\<close>

inductive video_reachable :: "video_state \<Rightarrow> bool" where
  video_init: "video_reachable DirectVideoPlayer_init"
| video_range: "video_reachable s \<Longrightarrow> 0 \<le> v \<Longrightarrow> v \<le> 1 \<Longrightarrow> video_reachable (handleVolumeChange v s)"
| video_mute: "video_reachable s \<Longrightarrow> video_reachable (toggleMute s)"
| video_up: "video_reachable s \<Longrightarrow> video_reachable (arrowup s)"
| video_down: "video_reachable s \<Longrightarrow> video_reachable (arrowdown s)"
| video_other: "video_reachable s \<Longrightarrow> volume s' = volume s \<Longrightarrow> prevVolume s' = prevVolume s
     \<Longrightarrow> muted s' = muted s \<Longrightarrow> video_reachable s'"

inductive audio_reachable :: "audio_state \<Rightarrow> bool" where
  audio_init: "audio_reachable AudioPlayer_init"
| audio_range: "audio_reachable s \<Longrightarrow> 0 \<le> v \<Longrightarrow> v \<le> 1 \<Longrightarrow> audio_reachable (handleVolumeChange v s)"
| audio_mute: "audio_reachable s \<Longrightarrow> audio_reachable (toggleMute s)"
| audio_other: "audio_reachable s \<Longrightarrow> volume s' = volume s \<Longrightarrow> prevVolume s' = prevVolume s
     \<Longrightarrow> muted s' = muted s \<Longrightarrow> audio_reachable s'"

section \<open>The scripted embed\<close>

text \<open>
  YouTubePlayer (\<^verbatim>\<open>VideoPlayer.tsx\<close>) keeps its display state in React state and in
  references, which live as long as the component. Each run of its main effect (on mount
  and whenever \<^verbatim>\<open>videoId\<close> changes) is a closure with its own variables \<^verbatim>\<open>destroyed\<close>
  and \<^verbatim>\<open>attempts\<close>: an instance. The callbacks an instance hands to the external player,
  and the polling function \<^verbatim>\<open>check\<close> it gives to \<^verbatim>\<open>setTimeout\<close>, read the variables of
  their own instance and write the state of the component.

  The external player is not part of the repository. It enters as a parameter: the
  constructor \<^verbatim>\<open>window.YT.Player\<close>, absent while the script has not loaded, and a record
  of what a player answers when it is asked.
\<close>

datatype 'a js_call = Throws | Undefined | Returns 'a

record external_player =
  ep_videoId :: string
  getPlaybackQuality :: "string js_call"
  getVideoUrl :: "string js_call"
  getVideoData_title :: "string js_call"

type_synonym YT = "(string \<Rightarrow> external_player) option"

datatype PlayerState = UNSTARTED | ENDED | PLAYING | PAUSED | BUFFERING | CUED

record yt_state =
  ready :: bool
  yt_loading :: bool
  errorState :: bool
  currentQuality :: string
  playingSuggestion :: bool
  suggestionTitle :: string
  expectedVideoId :: string
  playerRef :: "external_player option"
  ytRef :: bool
  yt_host :: host

record effect_instance =
  videoId :: string
  destroyed :: bool
  attempts :: nat
  timer :: bool

definition YouTubePlayer_init :: "string \<Rightarrow> yt_state" where
  \<comment> \<open>the arguments of \<^verbatim>\<open>useState\<close> and \<^verbatim>\<open>useRef\<close>, and the container that the first
      render mounts; \<open>link\<close> is \<^verbatim>\<open>item.link\<close>\<close>
  "YouTubePlayer_init link =
     \<lparr>ready = False, yt_loading = True, errorState = False, currentQuality = [],
      playingSuggestion = False, suggestionTitle = [], expectedVideoId = getYTVideoId link,
      playerRef = None, ytRef = True, yt_host = \<lparr>onEnded_calls = 0\<rparr>\<rparr>"

definition init :: "(string \<Rightarrow> external_player) \<Rightarrow> effect_instance \<Rightarrow> yt_state \<Rightarrow> yt_state" where
  \<comment> \<open>\<open>Player\<close> is \<^verbatim>\<open>YT.Player\<close>; a player that the reference still holds is destroyed
      and replaced\<close>
  "init Player i c =
     (if destroyed i \<or> \<not> ytRef c then c
      else c\<lparr>yt_loading := True, ready := False, errorState := False, currentQuality := [],
             playingSuggestion := False, suggestionTitle := [],
             playerRef := Some (Player (videoId i))\<rparr>)"

definition onReady :: "effect_instance \<Rightarrow> yt_state \<Rightarrow> yt_state" where
  "onReady i c = (if destroyed i then c else c\<lparr>ready := True, yt_loading := False\<rparr>)"

definition quality_of :: "yt_state \<Rightarrow> yt_state" where
  \<comment> \<open>the first \<^verbatim>\<open>try\<close> block of the case \<^verbatim>\<open>PLAYING\<close>\<close>
  "quality_of c =
     (case playerRef c of
        None \<Rightarrow> c
      | Some p \<Rightarrow>
          (case getPlaybackQuality p of
             Returns q \<Rightarrow> if q \<noteq> [] then c\<lparr>currentQuality := q\<rparr> else c
           | _ \<Rightarrow> c))"

definition suggestion_of :: "yt_state \<Rightarrow> yt_state" where
  \<comment> \<open>the second \<^verbatim>\<open>try\<close> block of the case \<^verbatim>\<open>PLAYING\<close>; a call that throws ends the
      block where it stands\<close>
  "suggestion_of c =
     (case (case playerRef c of
              None \<Rightarrow> Returns []
            | Some p \<Rightarrow> (case getVideoUrl p of Undefined \<Rightarrow> Returns [] | r \<Rightarrow> r)) of
        Throws \<Rightarrow> c
      | Undefined \<Rightarrow> c
      | Returns nowUrl \<Rightarrow>
          (let nowId = getYTVideoId nowUrl in
             if nowId \<noteq> [] \<and> nowId \<noteq> expectedVideoId c
             then (let c1 = c\<lparr>playingSuggestion := True\<rparr> in
                   case (case playerRef c of None \<Rightarrow> Undefined | Some p \<Rightarrow> getVideoData_title p) of
                     Throws \<Rightarrow> c1
                   | Undefined \<Rightarrow> c1\<lparr>suggestionTitle := ''YouTube Suggestion''\<rparr>
                   | Returns t \<Rightarrow>
                       c1\<lparr>suggestionTitle := (if t \<noteq> [] then t else ''YouTube Suggestion'')\<rparr>)
             else c\<lparr>playingSuggestion := False, suggestionTitle := []\<rparr>))"

definition onStateChange :: "effect_instance \<Rightarrow> PlayerState \<Rightarrow> yt_state \<Rightarrow> yt_state" where
  \<comment> \<open>the second argument is \<^verbatim>\<open>e.data\<close>\<close>
  "onStateChange i data c =
     (if destroyed i then c
      else (case data of
              PLAYING \<Rightarrow> suggestion_of (quality_of (c\<lparr>yt_loading := False\<rparr>))
            | BUFFERING \<Rightarrow> c\<lparr>yt_loading := True\<rparr>
            | ENDED \<Rightarrow> c\<lparr>yt_host := onEnded (yt_host c)\<rparr>
            | _ \<Rightarrow> c))"

definition onPlaybackQualityChange ::
  "effect_instance \<Rightarrow> string option \<Rightarrow> yt_state \<Rightarrow> yt_state" where
  \<comment> \<open>the second argument is \<^verbatim>\<open>e.data\<close>, \<open>None\<close> when it is undefined\<close>
  "onPlaybackQualityChange i data c =
     (if \<not> destroyed i then c\<lparr>currentQuality := (case data of Some q \<Rightarrow> q | None \<Rightarrow> [])\<rparr>
      else c)"

definition onError :: "effect_instance \<Rightarrow> yt_state \<Rightarrow> yt_state" where
  "onError i c = (if \<not> destroyed i then c\<lparr>yt_loading := False, errorState := True\<rparr> else c)"

definition check :: "YT \<Rightarrow> effect_instance \<times> yt_state \<Rightarrow> effect_instance \<times> yt_state" where
  \<comment> \<open>one call of \<^verbatim>\<open>check\<close>; \<open>yt\<close> is what \<^verbatim>\<open>window.YT?.Player\<close> holds at that moment, and
      \<^verbatim>\<open>setTimeout(check, 200)\<close> raises the flag \<open>timer\<close> of the instance\<close>
  "check yt x =
     (case x of (i, c) \<Rightarrow>
        if destroyed i then (i, c)
        else (case yt of
                Some Player \<Rightarrow> (i, init Player i c)
              | None \<Rightarrow>
                  (let i' = i\<lparr>attempts := attempts i + 1\<rparr>
                   in if attempts i' < 50 then (i'\<lparr>timer := True\<rparr>, c)
                      else (i', c\<lparr>yt_loading := False\<rparr>))))"

definition YouTubePlayer_effect :: "YT \<Rightarrow> string \<Rightarrow> yt_state \<Rightarrow> effect_instance option \<times> yt_state" where
  \<comment> \<open>the body of the main effect for the identifier \<open>vid\<close>: no instance for an empty
      identifier, else a new instance and its first \<^verbatim>\<open>check()\<close>\<close>
  "YouTubePlayer_effect yt vid c =
     (if vid = [] then (None, c)
      else (case check yt (\<lparr>videoId = vid, destroyed = False, attempts = 0, timer = False\<rparr>, c)
            of (i, c') \<Rightarrow> (Some i, c')))"

definition cleanup :: "effect_instance \<times> yt_state \<Rightarrow> effect_instance \<times> yt_state" where
  \<comment> \<open>the function the effect returns, run when \<^verbatim>\<open>videoId\<close> changes or the component
      unmounts; a pending timeout is not cleared\<close>
  "cleanup x = (case x of (i, c) \<Rightarrow> (i\<lparr>destroyed := True\<rparr>, c\<lparr>playerRef := None\<rparr>))"

function poll :: "(nat \<Rightarrow> YT) \<Rightarrow> nat \<Rightarrow> effect_instance \<times> yt_state
    \<Rightarrow> nat \<times> effect_instance \<times> yt_state" where
  \<comment> \<open>the timeouts of one instance, fired one after the other, each 200 ms after it was
      set, until none is pending: \<open>window_YT t\<close> is what \<^verbatim>\<open>window.YT?.Player\<close> holds at
      time \<open>t\<close> (in ms), and the result starts with the time of the last call\<close>
  "poll window_YT now (i, c) =
     (if timer i
      then poll window_YT (now + 200) (check (window_YT (now + 200)) (i\<lparr>timer := False\<rparr>, c))
      else (now, i, c))"
  by pat_completeness auto
termination
proof (relation "measure (\<lambda>(w, now, i, c). 2 * (50 - attempts i) + (if timer i then 1 else 0))")
  show "wf (measure (\<lambda>(w, now, i, c). 2 * (50 - attempts i) + (if timer i then 1 else 0)))"
    by simp
next
  fix window_YT :: "nat \<Rightarrow> YT" and now :: nat and i :: effect_instance and c :: yt_state
  assume t: "timer i"
  obtain i' c' where e: "check (window_YT (now + 200)) (i\<lparr>timer := False\<rparr>, c) = (i', c')"
    by (cases "check (window_YT (now + 200)) (i\<lparr>timer := False\<rparr>, c)") blast
  have "2 * (50 - attempts i') + (if timer i' then 1 else 0) < 2 * (50 - attempts i) + 1"
    using e by (auto simp: check_def Let_def split: if_splits option.splits)
  then show "((window_YT, now + 200, check (window_YT (now + 200)) (i\<lparr>timer := False\<rparr>, c)),
              (window_YT, now, i, c))
             \<in> measure (\<lambda>(w, now, i, c). 2 * (50 - attempts i) + (if timer i then 1 else 0))"
    using t e by simp
qed

declare poll.simps [simp del]

datatype yt_event =
  Ready
| StateChange PlayerState
| PlaybackQualityChange "string option"
| Error
| Timeout YT

fun deliver :: "yt_event \<Rightarrow> effect_instance \<times> yt_state \<Rightarrow> effect_instance \<times> yt_state" where
  \<comment> \<open>an asynchronous callback of the instance \<open>i\<close> arrives while the component is in the
      state \<open>c\<close>\<close>
  "deliver Ready (i, c) = (i, onReady i c)"
| "deliver (StateChange data) (i, c) = (i, onStateChange i data c)"
| "deliver (PlaybackQualityChange data) (i, c) = (i, onPlaybackQualityChange i data c)"
| "deliver Error (i, c) = (i, onError i c)"
| "deliver (Timeout yt) (i, c) = (if timer i then check yt (i\<lparr>timer := False\<rparr>, c) else (i, c))"

section \<open>Link classification and dispatch\<close>

lemma matches_ci_iff:
  "matches_ci pat s \<longleftrightarrow>
     (\<exists>post. map canonicalize s = map canonicalize pat @ post)"
  by (induction pat s rule: matches_ci.induct) auto

lemma regex_test_ci_iff:
  "regex_test_ci alts s \<longleftrightarrow> (\<exists>a \<in> set alts. has_signature a s)"
proof (induction s)
  case Nil
  show ?case
    by (auto simp: has_signature_def list_ex_iff matches_ci_iff)
next
  case (Cons c cs)
  have step: "has_signature a (c # cs) \<longleftrightarrow> matches_ci a (c # cs) \<or> has_signature a cs" for a
  proof
    assume "has_signature a (c # cs)"
    then obtain pre post where e: "map canonicalize (c # cs) = pre @ map canonicalize a @ post"
      unfolding has_signature_def by blast
    show "matches_ci a (c # cs) \<or> has_signature a cs"
    proof (cases pre)
      case Nil
      with e show ?thesis by (auto simp: matches_ci_iff)
    next
      case (Cons x pre')
      with e have "map canonicalize cs = pre' @ map canonicalize a @ post" by simp
      then show ?thesis unfolding has_signature_def by blast
    qed
  next
    assume "matches_ci a (c # cs) \<or> has_signature a cs"
    then show "has_signature a (c # cs)"
    proof
      assume "matches_ci a (c # cs)"
      then obtain post where "map canonicalize (c # cs) = [] @ map canonicalize a @ post"
        by (auto simp: matches_ci_iff)
      then show ?thesis unfolding has_signature_def by blast
    next
      assume "has_signature a cs"
      then obtain pre post where "map canonicalize cs = pre @ map canonicalize a @ post"
        unfolding has_signature_def by blast
      then have "map canonicalize (c # cs) = (canonicalize c # pre) @ map canonicalize a @ post"
        by simp
      then show ?thesis unfolding has_signature_def by blast
    qed
  qed
  show ?case
    using Cons.IH by (auto simp: list_ex_iff step)
qed

lemma isYouTubeLink_iff:
  "isYouTubeLink url \<longleftrightarrow> has_signature ''youtube.com'' url \<or> has_signature ''youtu.be'' url"
  by (simp add: isYouTubeLink_def regex_test_ci_iff)

lemma isMegaLink_iff: "isMegaLink url \<longleftrightarrow> has_signature ''mega.nz'' url"
  by (simp add: isMegaLink_def regex_test_ci_iff)

text \<open>
  C1. The dispatcher mounts the controller of the classifier's verdict. The verdict is
  \<open>youtube\<close> exactly for the links that carry a YouTube host signature (whether or not
  they also carry the Mega one), \<open>mega\<close> exactly for the links that carry the Mega
  signature and no YouTube one, and \<open>direct\<close> exactly for the links that carry neither.
  Both are functions of the link alone.
\<close>

theorem classify_dispatch:
  "VideoPlayer link = controller_of (getLinkType link)
   \<and> (getLinkType link = youtube \<longleftrightarrow>
        has_signature ''youtube.com'' link \<or> has_signature ''youtu.be'' link)
   \<and> (getLinkType link = mega \<longleftrightarrow>
        has_signature ''mega.nz'' link
        \<and> \<not> (has_signature ''youtube.com'' link \<or> has_signature ''youtu.be'' link))
   \<and> (getLinkType link = direct \<longleftrightarrow>
        \<not> has_signature ''mega.nz'' link
        \<and> \<not> (has_signature ''youtube.com'' link \<or> has_signature ''youtu.be'' link))"
  by (auto simp: VideoPlayer_def getLinkType_def isYouTubeLink_iff isMegaLink_iff)

section \<open>The embed identifier\<close>

lemma literal_iff: "literal pat s = Some r \<longleftrightarrow> s = pat @ r"
  by (induction pat s rule: literal.induct) auto

lemma bind_literal:
  "Option.bind (literal pat s) f = Some g \<longleftrightarrow> (\<exists>r. s = pat @ r \<and> f r = Some g)"
  by (auto simp: bind_eq_Some_conv literal_iff)

lemma group1_iff: "group1 s = Some g \<longleftrightarrow> (embed_id g \<and> (\<exists>post. s = g @ post))"
proof
  assume "group1 s = Some g"
  then have g: "g = take 11 s" and l: "11 \<le> length s" and a: "list_all isIdChar (take 11 s)"
    by (auto simp: group1_def split: if_splits)
  have "s = g @ drop 11 s" using g by simp
  moreover have "embed_id g" using g l a by (simp add: embed_id_def)
  ultimately show "embed_id g \<and> (\<exists>post. s = g @ post)" by blast
next
  assume "embed_id g \<and> (\<exists>post. s = g @ post)"
  then show "group1 s = Some g"
    by (auto simp: group1_def embed_id_def)
qed

lemma match_here_iff: "match_here s = Some g \<longleftrightarrow> shape_at s g"
proof -
  let ?a = "Option.bind (Option.bind (literal ''youtube.com/'' s) (literal ''watch?v='')) group1"
  let ?b = "Option.bind (Option.bind (literal ''youtube.com/'' s) (literal ''embed/'')) group1"
  let ?c = "Option.bind (literal ''youtu.be/'' s) group1"
  have a: "?a = Some g \<longleftrightarrow> embed_id g \<and> (\<exists>post. s = ''youtube.com/watch?v='' @ g @ post)" for g
    by (auto simp: bind_eq_Some_conv literal_iff group1_iff)
  have b: "?b = Some g \<longleftrightarrow> embed_id g \<and> (\<exists>post. s = ''youtube.com/embed/'' @ g @ post)" for g
    by (auto simp: bind_eq_Some_conv literal_iff group1_iff)
  have c: "?c = Some g \<longleftrightarrow> embed_id g \<and> (\<exists>post. s = ''youtu.be/'' @ g @ post)" for g
    by (auto simp: bind_eq_Some_conv literal_iff group1_iff)
  have excl: "\<not> (?a = Some x \<and> ?b = Some y)"
             "\<not> (?a = Some x \<and> ?c = Some y)"
             "\<not> (?b = Some x \<and> ?c = Some y)" for x y
    unfolding a b c by auto
  have m: "match_here s = (case ?a of Some g \<Rightarrow> Some g | None \<Rightarrow>
             (case ?b of Some g \<Rightarrow> Some g | None \<Rightarrow> ?c))"
    by (simp add: match_here_def)
  have "match_here s = Some g \<longleftrightarrow> ?a = Some g \<or> ?b = Some g \<or> ?c = Some g"
    unfolding m using excl by (cases ?a; cases ?b; cases ?c) auto
  also have "\<dots> \<longleftrightarrow> shape_at s g"
    unfolding a b c shape_at_def shapes_def by auto
  finally show ?thesis .
qed

lemma regex_match_Some: "regex_match url = Some g \<Longrightarrow> carries url g"
proof (induction url)
  case Nil
  then have "shape_at [] g" by (simp add: match_here_iff)
  then show ?case unfolding carries_def by (metis append_Nil)
next
  case (Cons c cs)
  show ?case
  proof (cases "match_here (c # cs)")
    case (Some h)
    with Cons.prems have "shape_at (c # cs) g" by (simp add: match_here_iff)
    then show ?thesis unfolding carries_def by (metis append_Nil)
  next
    case None
    with Cons have "carries cs g" by simp
    then obtain pre rest where "cs = pre @ rest" "shape_at rest g"
      unfolding carries_def by blast
    then have "c # cs = (c # pre) @ rest \<and> shape_at rest g" by simp
    then show ?thesis unfolding carries_def by blast
  qed
qed

lemma regex_match_skip:
  "\<forall>k<length pre. match_here (drop k (pre @ rest)) = None \<Longrightarrow>
   regex_match (pre @ rest) = regex_match rest"
proof (induction pre)
  case Nil
  then show ?case by simp
next
  case (Cons c pre)
  have h: "match_here (c # pre @ rest) = None"
    using Cons.prems by (metis append_Cons drop0 length_greater_0_conv list.distinct(1))
  have "\<forall>k<length pre. match_here (drop k (pre @ rest)) = None"
  proof (intro allI impI)
    fix k assume "k < length pre"
    then have "Suc k < length (c # pre)" by simp
    with Cons.prems have "match_here (drop (Suc k) ((c # pre) @ rest)) = None" by blast
    then show "match_here (drop k (pre @ rest)) = None" by simp
  qed
  with Cons.IH h show ?case by simp
qed

lemma regex_match_here: "match_here s = Some g \<Longrightarrow> regex_match s = Some g"
  by (cases s) auto

lemma regex_match_None: "regex_match url = None \<longleftrightarrow> (\<forall>g. \<not> carries url g)"
proof
  assume n: "regex_match url = None"
  show "\<forall>g. \<not> carries url g"
  proof (intro allI notI)
    fix g assume "carries url g"
    then obtain pre rest where u: "url = pre @ rest" and s: "shape_at rest g"
      unfolding carries_def by blast
    from n u show False using s
    proof (induction pre arbitrary: url)
      case Nil
      then show ?case using regex_match_here[of rest g] by (simp add: match_here_iff)
    next
      case (Cons c pre)
      then have "regex_match (pre @ rest) = None" by (auto split: option.splits)
      with Cons show ?case by blast
    qed
  qed
next
  assume "\<forall>g. \<not> carries url g"
  then show "regex_match url = None"
    using regex_match_Some by (cases "regex_match url") auto
qed

lemma match_here_y: "match_here s = Some g \<Longrightarrow> \<exists>t. s = CHR ''y'' # t"
  by (auto simp: match_here_iff shape_at_def shapes_def)

lemma no_y_no_match:
  assumes "CHR ''y'' \<notin> set pre"
  shows "\<forall>k<length pre. \<forall>g. \<not> shape_at (drop k (pre @ rest)) g"
proof (intro allI impI notI)
  fix k g assume k: "k < length pre" and "shape_at (drop k (pre @ rest)) g"
  then obtain t where "drop k (pre @ rest) = CHR ''y'' # t"
    using match_here_y by (auto simp: match_here_iff)
  then have "pre ! k = CHR ''y''" using k
    by (metis Cons_nth_drop_Suc length_append list.inject nth_append trans_less_add1)
  with k assms show False by (metis nth_mem)
qed


lemma match_here_None: "match_here s = None \<longleftrightarrow> (\<forall>g. \<not> shape_at s g)"
  using match_here_iff[of s] by (cases "match_here s") auto

lemma embed_id_nonempty: "embed_id ident \<Longrightarrow> ident \<noteq> []"
  by (auto simp: embed_id_def)

lemma single_occurrence:
  "pre @ y # t' = p @ y # t \<Longrightarrow> y \<notin> set pre \<Longrightarrow> y \<notin> set t' \<Longrightarrow> p = pre \<and> t = t'"
proof (induction pre arbitrary: p)
  case Nil
  then show ?case by (cases p) auto
next
  case (Cons c pre)
  then show ?case by (cases p) auto
qed

lemma only_carrier:
  assumes "CHR ''y'' \<notin> set pre" and "CHR ''y'' \<notin> set (tl rest)" and "shape_at rest ident"
    and "carries (pre @ rest) g"
  shows "g = ident"
proof -
  obtain t' where r: "rest = CHR ''y'' # t'"
    using assms(3) match_here_y by (auto simp: match_here_iff)
  obtain p q where e: "pre @ rest = p @ q" and s: "shape_at q g"
    using assms(4) unfolding carries_def by blast
  obtain t where q: "q = CHR ''y'' # t"
    using s match_here_y by (auto simp: match_here_iff)
  have "p = pre \<and> t = t'"
    using e r q assms(1,2) single_occurrence[of pre "CHR ''y''" t' p t] by simp
  then have "q = rest" using r q by simp
  then have "match_here rest = Some g" using s by (simp add: match_here_iff)
  moreover have "match_here rest = Some ident" using assms(3) by (simp add: match_here_iff)
  ultimately show ?thesis by simp
qed

lemma carries_here: "shape_at rest ident \<Longrightarrow> carries (pre @ rest) ident"
  unfolding carries_def by blast

lemma carries_nonempty: "carries url g \<Longrightarrow> g \<noteq> []"
  by (auto simp: carries_def shape_at_def embed_id_def)

lemma regex_match_carries:
  assumes "carries url ident"
  shows "\<exists>g. regex_match url = Some g \<and> carries url g"
proof (cases "regex_match url")
  case None
  then show ?thesis using assms regex_match_None by blast
next
  case (Some g)
  then show ?thesis using regex_match_Some by blast
qed

lemma shape_at_exec: "shape_at s g \<longleftrightarrow> match_here s = Some g"
  by (simp add: match_here_iff)

text \<open>
  C2. getYTVideoId and getYouTubeVideoId return the same string for every link. When a
  link carries an identifier in one of the accepted shapes, the result is not empty and
  is an identifier that the link carries in an accepted shape: the one of the leftmost
  such shape, hence the identifier itself when no accepted shape with an identifier
  starts earlier in the link, and when the link carries no other identifier. The result
  is then the same for the three shapes. When a link carries no identifier in an
  accepted shape, the result is the empty string.
\<close>

theorem extractEmbedId_shapes:
  "getYouTubeVideoId url = getYTVideoId url
   \<and> (url = pre @ rest \<and> shape_at rest ident
        \<and> (\<forall>k<length pre. \<forall>g. \<not> shape_at (drop k url) g)
       \<longrightarrow> getYTVideoId url = ident \<and> ident \<noteq> [])
   \<and> (carries url ident \<and> (\<forall>g. carries url g \<longrightarrow> g = ident)
       \<longrightarrow> getYTVideoId url = ident \<and> ident \<noteq> [])
   \<and> (carries url ident \<longrightarrow> getYTVideoId url \<noteq> [] \<and> carries url (getYTVideoId url))
   \<and> ((\<forall>g. \<not> carries url g) \<longrightarrow> getYTVideoId url = [])"
proof (intro conjI impI)
  show "getYouTubeVideoId url = getYTVideoId url"
    by (simp add: getYouTubeVideoId_def getYTVideoId_def)
next
  assume h: "url = pre @ rest \<and> shape_at rest ident
      \<and> (\<forall>k<length pre. \<forall>g. \<not> shape_at (drop k url) g)"
  then have "\<forall>k<length pre. match_here (drop k (pre @ rest)) = None"
    unfolding match_here_None by blast
  then have "regex_match (pre @ rest) = regex_match rest"
    by (rule regex_match_skip)
  moreover have "regex_match rest = Some ident"
    using h by (simp add: regex_match_here match_here_iff)
  ultimately have r: "regex_match url = Some ident" using h by simp
  show "getYTVideoId url = ident" by (simp add: getYTVideoId_def r)
  show "ident \<noteq> []" using h embed_id_nonempty by (auto simp: shape_at_def)
next
  assume h: "carries url ident \<and> (\<forall>g. carries url g \<longrightarrow> g = ident)"
  then obtain g where "regex_match url = Some g" and "carries url g"
    using regex_match_carries by blast
  with h have r: "regex_match url = Some ident" by blast
  show "getYTVideoId url = ident" by (simp add: getYTVideoId_def r)
  show "ident \<noteq> []" using h carries_nonempty by blast
next
  assume "carries url ident"
  then obtain g where r: "regex_match url = Some g" and c: "carries url g"
    using regex_match_carries by blast
  show "getYTVideoId url \<noteq> []" using c carries_nonempty by (simp add: getYTVideoId_def r)
  show "carries url (getYTVideoId url)" using c by (simp add: getYTVideoId_def r)
next
  assume "\<forall>g. \<not> carries url g"
  then have r: "regex_match url = None" by (simp add: regex_match_None)
  show "getYTVideoId url = []" by (simp add: getYTVideoId_def r)
qed

theorem extractEmbedId_shapes_witness:
  "getYTVideoId ''https://www.youtube.com/watch?v=dQw4w9WgXcQ'' = ''dQw4w9WgXcQ''
   \<and> getYouTubeVideoId ''https://youtu.be/dQw4w9WgXcQ?t=42'' = ''dQw4w9WgXcQ''
   \<and> getYTVideoId ''https://www.youtube.com/embed/dQw4w9WgXcQ'' = ''dQw4w9WgXcQ''
   \<and> getYTVideoId ''https://example.com/media/clip.mp4'' = []"
proof -
  have s1: "shape_at ''youtube.com/watch?v=dQw4w9WgXcQ'' ''dQw4w9WgXcQ''"
    unfolding shape_at_exec by code_simp
  have s2: "shape_at ''youtu.be/dQw4w9WgXcQ?t=42'' ''dQw4w9WgXcQ''"
    unfolding shape_at_exec by code_simp
  have s3: "shape_at ''youtube.com/embed/dQw4w9WgXcQ'' ''dQw4w9WgXcQ''"
    unfolding shape_at_exec by code_simp
  have c1: "carries (''https://www.'' @ ''youtube.com/watch?v=dQw4w9WgXcQ'') ''dQw4w9WgXcQ''"
    using s1 by (rule carries_here)
  have u1: "\<forall>g. carries (''https://www.'' @ ''youtube.com/watch?v=dQw4w9WgXcQ'') g
              \<longrightarrow> g = ''dQw4w9WgXcQ''"
    using only_carrier[OF _ _ s1, of "''https://www.''"] by simp
  have n2: "\<forall>k<length ''https://''. \<forall>g. \<not> shape_at (drop k (''https://'' @ r)) g" for r
    by (rule no_y_no_match) simp
  have n3: "\<forall>k<length ''https://www.''. \<forall>g. \<not> shape_at (drop k (''https://www.'' @ r)) g" for r
    by (rule no_y_no_match) simp
  have "regex_match ''https://example.com/media/clip.mp4'' = None" by code_simp
  then have n4: "\<forall>g. \<not> carries ''https://example.com/media/clip.mp4'' g"
    unfolding regex_match_None .
  have a: "getYTVideoId ''https://www.youtube.com/watch?v=dQw4w9WgXcQ'' = ''dQw4w9WgXcQ''"
    using extractEmbedId_shapes[of "''https://www.youtube.com/watch?v=dQw4w9WgXcQ''" _ _
            "''dQw4w9WgXcQ''"] c1 u1
    by simp
  have b: "getYouTubeVideoId ''https://youtu.be/dQw4w9WgXcQ?t=42'' = ''dQw4w9WgXcQ''"
    using extractEmbedId_shapes[of "''https://youtu.be/dQw4w9WgXcQ?t=42''"
            "''https://''" "''youtu.be/dQw4w9WgXcQ?t=42''" "''dQw4w9WgXcQ''"]
          s2 n2[of "''youtu.be/dQw4w9WgXcQ?t=42''"]
    by simp
  have c: "getYTVideoId ''https://www.youtube.com/embed/dQw4w9WgXcQ'' = ''dQw4w9WgXcQ''"
    using extractEmbedId_shapes[of "''https://www.youtube.com/embed/dQw4w9WgXcQ''"
            "''https://www.''" "''youtube.com/embed/dQw4w9WgXcQ''" "''dQw4w9WgXcQ''"]
          s3 n3[of "''youtube.com/embed/dQw4w9WgXcQ''"]
    by simp
  have d: "getYTVideoId ''https://example.com/media/clip.mp4'' = []"
    using extractEmbedId_shapes[of "''https://example.com/media/clip.mp4''"] n4
    by simp
  show ?thesis using a b c d by blast
qed

section \<open>The embeddable form of a Mega link\<close>

lemma startsWith_iff: "startsWith s pat \<longleftrightarrow> (\<exists>r. s = pat @ r)"
  by (induction s pat rule: startsWith.induct) auto

lemma js_includes_iff: "js_includes s pat \<longleftrightarrow> (\<exists>pre post. s = pre @ pat @ post)"
proof (induction s)
  case Nil
  show ?case by (cases pat) auto
next
  case (Cons c cs)
  have "(\<exists>pre post. c # cs = pre @ pat @ post) \<longleftrightarrow>
        (\<exists>r. c # cs = pat @ r) \<or> (\<exists>pre post. cs = pre @ pat @ post)"
    (is "?l \<longleftrightarrow> ?r")
  proof
    assume ?l
    then obtain pre post where e: "c # cs = pre @ pat @ post" by blast
    show ?r
    proof (cases pre)
      case Nil
      with e show ?thesis by auto
    next
      case (Cons x pre')
      with e have "cs = pre' @ pat @ post" by simp
      then show ?thesis by blast
    qed
  next
    assume ?r
    then show ?l
    proof
      assume "\<exists>r. c # cs = pat @ r"
      then obtain r where "c # cs = [] @ pat @ r" by auto
      then show ?l by blast
    next
      assume "\<exists>pre post. cs = pre @ pat @ post"
      then obtain pre post where "c # cs = (c # pre) @ pat @ post" by auto
      then show ?l by blast
    qed
  qed
  with Cons.IH show ?case by (simp add: startsWith_iff)
qed

lemma js_replace_includes:
  "js_includes s pat \<Longrightarrow> js_includes (js_replace s pat rep) rep"
proof (induction s)
  case Nil
  then show ?case by (cases rep) (auto simp: startsWith_iff)
next
  case (Cons c cs)
  show ?case
  proof (cases "startsWith (c # cs) pat")
    case True
    then have "js_replace (c # cs) pat rep = [] @ rep @ drop (length pat) (c # cs)" by simp
    then show ?thesis unfolding js_includes_iff by blast
  next
    case False
    with Cons have "js_includes (js_replace cs pat rep) rep" by simp
    with False show ?thesis by simp
  qed
qed

lemma js_replace_absent: "\<not> js_includes s pat \<Longrightarrow> js_replace s pat rep = s"
  by (induction s) auto

text \<open>
  C3. getMegaEmbedUrl is idempotent, whatever the modes: applying it to its own result
  gives that result again. A link that holds the embed form is returned as it is, and so
  is a link that holds neither the embed form nor the file form.
\<close>

theorem getMegaEmbedUrl_idempotent:
  "getMegaEmbedUrl (getMegaEmbedUrl url m1) m2 = getMegaEmbedUrl url m3
   \<and> ((\<exists>pre post. url = pre @ ''mega.nz/embed/'' @ post) \<longrightarrow> getMegaEmbedUrl url m1 = url)
   \<and> (\<not> (\<exists>pre post. url = pre @ ''mega.nz/embed/'' @ post)
      \<and> \<not> (\<exists>pre post. url = pre @ ''mega.nz/file/'' @ post) \<longrightarrow> getMegaEmbedUrl url m1 = url)"
proof (intro conjI impI)
  show "getMegaEmbedUrl (getMegaEmbedUrl url m1) m2 = getMegaEmbedUrl url m3"
    unfolding getMegaEmbedUrl_def by (simp add: js_replace_includes)
  show "getMegaEmbedUrl url m1 = url" if "\<exists>pre post. url = pre @ ''mega.nz/embed/'' @ post"
    using that unfolding getMegaEmbedUrl_def js_includes_iff by simp
  show "getMegaEmbedUrl url m1 = url"
    if "\<not> (\<exists>pre post. url = pre @ ''mega.nz/embed/'' @ post)
      \<and> \<not> (\<exists>pre post. url = pre @ ''mega.nz/file/'' @ post)"
    using that unfolding getMegaEmbedUrl_def js_includes_iff by simp
qed

theorem getMegaEmbedUrl_idempotent_witness:
  "getMegaEmbedUrl (getMegaEmbedUrl ''https://mega.nz/file/AbC#k3y'' Video) Audio
     = ''https://mega.nz/embed/AbC#k3y''
   \<and> getMegaEmbedUrl ''https://mega.nz/embed/AbC#k3y'' Video = ''https://mega.nz/embed/AbC#k3y''
   \<and> getMegaEmbedUrl ''https://mega.nz/folder/xyz'' Audio = ''https://mega.nz/folder/xyz''"
proof -
  have e: "\<exists>pre post. ''https://mega.nz/embed/AbC#k3y'' = pre @ ''mega.nz/embed/'' @ post"
    unfolding js_includes_iff[symmetric] by code_simp
  have n: "\<not> (\<exists>pre post. ''https://mega.nz/folder/xyz'' = pre @ ''mega.nz/embed/'' @ post)
      \<and> \<not> (\<exists>pre post. ''https://mega.nz/folder/xyz'' = pre @ ''mega.nz/file/'' @ post)"
    unfolding js_includes_iff[symmetric] by code_simp
  have v: "getMegaEmbedUrl ''https://mega.nz/file/AbC#k3y'' Video = ''https://mega.nz/embed/AbC#k3y''"
    by code_simp
  show ?thesis
    using getMegaEmbedUrl_idempotent[of "''https://mega.nz/file/AbC#k3y''" Video Audio Video]
          getMegaEmbedUrl_idempotent[of "''https://mega.nz/embed/AbC#k3y''" Video]
          getMegaEmbedUrl_idempotent[of "''https://mega.nz/folder/xyz''" Audio]
          e n v
    by simp
qed

section \<open>Volume and mute\<close>

text \<open>
  C4. In both native players, from any state: after the volume handler has set the volume
  to 0.7, a mute and then an unmute leave the volume at exactly 0.7, with the mute flag
  off and the volume of the media element at 0.7 once the volume effect has run; in
  between, the player is muted.
\<close>

theorem volume_mute_roundtrip:
  "volume (toggleMute (toggleMute (handleVolumeChange 0.7 s))) = 0.7
   \<and> \<not> muted (toggleMute (toggleMute (handleVolumeChange 0.7 s)))
   \<and> muted (toggleMute (handleVolumeChange 0.7 s))
   \<and> el_volume (DirectVideoPlayer_sync_volume
          (toggleMute (toggleMute (handleVolumeChange 0.7 vs))) el) = 0.7
   \<and> el_volume (AudioPlayer_sync_volume
          (toggleMute (toggleMute (handleVolumeChange 0.7 as))) el) = 0.7"
  by (simp add: handleVolumeChange_def toggleMute_def DirectVideoPlayer_sync_volume_def
      AudioPlayer_sync_volume_def Let_def)

lemma video_volume_invariant:
  "video_reachable s \<Longrightarrow> 0 < prevVolume s \<and> prevVolume s \<le> 1 \<and> 0 \<le> volume s \<and> volume s \<le> 1"
proof (induction rule: video_reachable.induct)
  case video_init
  show ?case by (simp add: DirectVideoPlayer_init_def)
next
  case (video_range s v)
  then show ?case by (simp add: handleVolumeChange_def Let_def)
next
  case (video_mute s)
  then show ?case by (auto simp: toggleMute_def Let_def)
next
  case (video_up s)
  then show ?case by (simp add: arrowup_def)
next
  case (video_down s)
  then show ?case by (auto simp: arrowdown_def Let_def max_def)
next
  case (video_other s s')
  then show ?case by simp
qed

lemma audio_volume_invariant:
  "audio_reachable s \<Longrightarrow> 0 < prevVolume s \<and> prevVolume s \<le> 1 \<and> 0 \<le> volume s \<and> volume s \<le> 1"
proof (induction rule: audio_reachable.induct)
  case audio_init
  show ?case by (simp add: AudioPlayer_init_def)
next
  case (audio_range s v)
  then show ?case by (simp add: handleVolumeChange_def Let_def)
next
  case (audio_mute s)
  then show ?case by (auto simp: toggleMute_def Let_def)
next
  case (audio_other s s')
  then show ?case by simp
qed

lemma load_keeps_volume:
  "volume (fst (DirectVideoPlayer_load link ref s)) = volume s
   \<and> prevVolume (fst (DirectVideoPlayer_load link ref s)) = prevVolume s
   \<and> muted (fst (DirectVideoPlayer_load link ref s)) = muted s
   \<and> volume (fst (AudioPlayer_item_change track aref t)) = volume t
   \<and> prevVolume (fst (AudioPlayer_item_change track aref t)) = prevVolume t
   \<and> muted (fst (AudioPlayer_item_change track aref t)) = muted t
   \<and> volume (toggleRepeat t) = volume t \<and> prevVolume (toggleRepeat t) = prevVolume t
   \<and> muted (toggleRepeat t) = muted t"
  by (simp add: DirectVideoPlayer_load_def AudioPlayer_item_change_def AudioPlayer_load_def
      AudioPlayer_reset_image_def toggleRepeat_def split: option.splits)

text \<open>
  C5, as it is stated, fails on a player that has just been mounted: nobody has set a
  volume yet, the volume control is set to 0 and mute is toggled, and the volume comes
  back as 0.75, the initial value of \<^verbatim>\<open>prevVolume\<close>, not as 0.5.
\<close>

theorem fresh_unmute_counterexample:
  "volume (toggleMute (handleVolumeChange 0 DirectVideoPlayer_init)) \<noteq> 0.5
   \<and> volume (toggleMute (handleVolumeChange 0 AudioPlayer_init)) \<noteq> 0.5"
  by (simp add: handleVolumeChange_def toggleMute_def DirectVideoPlayer_init_def
      AudioPlayer_init_def Let_def)

text \<open>
  C5, amended. Setting the volume control to 0 makes the volume of the media element 0
  (and sets the mute flag). Toggling mute in that state restores the remembered volume
  \<^verbatim>\<open>prevVolume\<close> when it is positive, and 0.5 otherwise. On a player that has just been
  mounted the restored volume is 0.75, and in every state that the players reach from
  there the remembered volume is positive, so that it is the one restored.
\<close>

theorem zero_volume_then_unmute:
  "el_volume (DirectVideoPlayer_sync_volume (handleVolumeChange 0 vs) el) = 0
   \<and> el_volume (AudioPlayer_sync_volume (handleVolumeChange 0 as) el) = 0
   \<and> muted (handleVolumeChange 0 s)
   \<and> volume (toggleMute (handleVolumeChange 0 s))
       = (if 0 < prevVolume s then prevVolume s else 0.5)
   \<and> volume (toggleMute (handleVolumeChange 0 DirectVideoPlayer_init)) = 0.75
   \<and> volume (toggleMute (handleVolumeChange 0 AudioPlayer_init)) = 0.75
   \<and> (video_reachable vs \<longrightarrow>
         volume (toggleMute (handleVolumeChange 0 vs)) = prevVolume vs \<and> 0 < prevVolume vs)
   \<and> (audio_reachable as \<longrightarrow>
         volume (toggleMute (handleVolumeChange 0 as)) = prevVolume as \<and> 0 < prevVolume as)"
  using video_volume_invariant[of vs] audio_volume_invariant[of as]
  by (simp add: handleVolumeChange_def toggleMute_def DirectVideoPlayer_init_def
      AudioPlayer_init_def DirectVideoPlayer_sync_volume_def AudioPlayer_sync_volume_def Let_def)

theorem zero_volume_then_unmute_witness:
  "volume (toggleMute (handleVolumeChange 0 (handleVolumeChange 0.3 DirectVideoPlayer_init))) = 0.3
   \<and> volume (toggleMute (handleVolumeChange 0 (toggleMute AudioPlayer_init))) = 0.75"
proof -
  have v: "video_reachable (handleVolumeChange 0.3 DirectVideoPlayer_init)"
    by (rule video_range[OF video_init]) simp_all
  have a: "audio_reachable (toggleMute AudioPlayer_init)"
    by (rule audio_mute[OF audio_init])
  have pv: "prevVolume (handleVolumeChange 0.3 DirectVideoPlayer_init) = 0.3"
    by (simp add: handleVolumeChange_def Let_def)
  have pa: "prevVolume (toggleMute AudioPlayer_init) = 0.75"
    by (simp add: toggleMute_def AudioPlayer_init_def)
  note t = zero_volume_then_unmute[of "handleVolumeChange 0.3 DirectVideoPlayer_init" _
            "toggleMute AudioPlayer_init"]
  from t v have "volume (toggleMute (handleVolumeChange 0
       (handleVolumeChange 0.3 DirectVideoPlayer_init)))
       = prevVolume (handleVolumeChange 0.3 DirectVideoPlayer_init)"
    by blast
  moreover from t a have "volume (toggleMute (handleVolumeChange 0 (toggleMute AudioPlayer_init)))
       = prevVolume (toggleMute AudioPlayer_init)"
    by blast
  ultimately show ?thesis
    unfolding pv pa by (rule conjI)
qed


section \<open>Seeking\<close>

lemma seek_known_duration:
  assumes "el_duration a = Fin D" "0 < D" "0 < rect_width r"
  shows "handleProgressClick x (Some a) (Some r) s =
           Inr (s\<lparr>currentTime := max 0 (min 1 ((x - rect_left r) / rect_width r)) * D\<rparr>,
                Some (a\<lparr>el_currentTime := max 0 (min 1 ((x - rect_left r) / rect_width r)) * D\<rparr>))"
  using assms
  by (simp add: handleProgressClick_def falsy_def js_div_def set_currentTime_def)

lemma clamp_left:
  fixes x l w :: real
  assumes "0 < w" "x \<le> l"
  shows "max 0 (min 1 ((x - l) / w)) = 0"
proof -
  have "(x - l) / w \<le> 0" using assms by (simp add: divide_le_0_iff)
  then show ?thesis by simp
qed

lemma clamp_right:
  fixes x l w :: real
  assumes "0 < w" "l + w \<le> x"
  shows "max 0 (min 1 ((x - l) / w)) = 1"
proof -
  have "1 \<le> (x - l) / w" using assms by (simp add: le_divide_eq)
  then show ?thesis by simp
qed

lemma clamp_mid:
  fixes l w :: real
  assumes "0 < w"
  shows "max 0 (min 1 ((l + w / 2 - l) / w)) = 1 / 2"
  using assms by simp

text \<open>
  C6. In both native players, with an element of known positive duration \<open>D\<close> and a
  progress bar of positive width, a click at \<open>x\<close> sets the time of the element and the
  elapsed time of the state to \<open>clamp ((x - left) / width) * D\<close>, the fraction clamped to
  the interval from 0 to 1: 0 for a click at or left of the bar's left edge, \<open>D\<close> for a
  click at or right of its right edge, 50 for a click at the middle when \<open>D\<close> is 100.
  With a duration that is 0 or unknown the click changes nothing. (Products and quotients
  are those of the real numbers.)
\<close>

theorem handleProgressClick_seek:
  "(el_duration a = Fin D \<and> 0 < D \<and> 0 < rect_width r \<longrightarrow>
      handleProgressClick x (Some a) (Some r) s =
        Inr (s\<lparr>currentTime := max 0 (min 1 ((x - rect_left r) / rect_width r)) * D\<rparr>,
             Some (a\<lparr>el_currentTime := max 0 (min 1 ((x - rect_left r) / rect_width r)) * D\<rparr>))
      \<and> (x \<le> rect_left r \<longrightarrow>
           handleProgressClick x (Some a) (Some r) s =
             Inr (s\<lparr>currentTime := 0\<rparr>, Some (a\<lparr>el_currentTime := 0\<rparr>)))
      \<and> (rect_left r + rect_width r \<le> x \<longrightarrow>
           handleProgressClick x (Some a) (Some r) s =
             Inr (s\<lparr>currentTime := D\<rparr>, Some (a\<lparr>el_currentTime := D\<rparr>)))
      \<and> (x = rect_left r + rect_width r / 2 \<and> D = 100 \<longrightarrow>
           handleProgressClick x (Some a) (Some r) s =
             Inr (s\<lparr>currentTime := 50\<rparr>, Some (a\<lparr>el_currentTime := 50\<rparr>))))
   \<and> (el_duration a = Fin 0 \<or> el_duration a = NaN \<longrightarrow>
        handleProgressClick x (Some a) bar s = Inr (s, Some a))"
proof (intro conjI impI)
  assume h: "el_duration a = Fin D \<and> 0 < D \<and> 0 < rect_width r"
  then have g: "handleProgressClick x (Some a) (Some r) s =
        Inr (s\<lparr>currentTime := max 0 (min 1 ((x - rect_left r) / rect_width r)) * D\<rparr>,
             Some (a\<lparr>el_currentTime := max 0 (min 1 ((x - rect_left r) / rect_width r)) * D\<rparr>))"
    by (simp add: seek_known_duration)
  show "handleProgressClick x (Some a) (Some r) s =
        Inr (s\<lparr>currentTime := max 0 (min 1 ((x - rect_left r) / rect_width r)) * D\<rparr>,
             Some (a\<lparr>el_currentTime := max 0 (min 1 ((x - rect_left r) / rect_width r)) * D\<rparr>))"
    by (rule g)
  show "handleProgressClick x (Some a) (Some r) s =
             Inr (s\<lparr>currentTime := 0\<rparr>, Some (a\<lparr>el_currentTime := 0\<rparr>))"
    if "x \<le> rect_left r"
    unfolding g using clamp_left[of "rect_width r" x "rect_left r"] h that by simp
  show "handleProgressClick x (Some a) (Some r) s =
             Inr (s\<lparr>currentTime := D\<rparr>, Some (a\<lparr>el_currentTime := D\<rparr>))"
    if "rect_left r + rect_width r \<le> x"
    unfolding g using clamp_right[of "rect_width r" "rect_left r" x] h that by simp
  show "handleProgressClick x (Some a) (Some r) s =
             Inr (s\<lparr>currentTime := 50\<rparr>, Some (a\<lparr>el_currentTime := 50\<rparr>))"
    if "x = rect_left r + rect_width r / 2 \<and> D = 100"
    unfolding g using clamp_mid[of "rect_width r" "rect_left r"] h that by simp
next
  assume "el_duration a = Fin 0 \<or> el_duration a = NaN"
  then show "handleProgressClick x (Some a) bar s = Inr (s, Some a)"
    by (auto simp: handleProgressClick_def falsy_def split: option.splits)
qed

theorem handleProgressClick_seek_witness:
  "handleProgressClick 260
      (Some \<lparr>src = ''a.mp4'', paused = False, el_currentTime = 7, el_duration = Fin 100,
             el_volume = 1, el_muted = False, el_playbackRate = 1, play_calls = 1\<rparr>)
      (Some \<lparr>rect_left = 60, rect_width = 400\<rparr>) DirectVideoPlayer_init
    = Inr (DirectVideoPlayer_init\<lparr>currentTime := 50\<rparr>,
           Some \<lparr>src = ''a.mp4'', paused = False, el_currentTime = 50, el_duration = Fin 100,
             el_volume = 1, el_muted = False, el_playbackRate = 1, play_calls = 1\<rparr>)
   \<and> handleProgressClick 12
      (Some \<lparr>src = ''a.mp4'', paused = False, el_currentTime = 7, el_duration = Fin 100,
             el_volume = 1, el_muted = False, el_playbackRate = 1, play_calls = 1\<rparr>)
      (Some \<lparr>rect_left = 60, rect_width = 400\<rparr>) DirectVideoPlayer_init
    = Inr (DirectVideoPlayer_init\<lparr>currentTime := 0\<rparr>,
           Some \<lparr>src = ''a.mp4'', paused = False, el_currentTime = 0, el_duration = Fin 100,
             el_volume = 1, el_muted = False, el_playbackRate = 1, play_calls = 1\<rparr>)
   \<and> handleProgressClick 475
      (Some \<lparr>src = ''a.mp4'', paused = False, el_currentTime = 7, el_duration = Fin 100,
             el_volume = 1, el_muted = False, el_playbackRate = 1, play_calls = 1\<rparr>)
      (Some \<lparr>rect_left = 60, rect_width = 400\<rparr>) DirectVideoPlayer_init
    = Inr (DirectVideoPlayer_init\<lparr>currentTime := 100\<rparr>,
           Some \<lparr>src = ''a.mp4'', paused = False, el_currentTime = 100, el_duration = Fin 100,
             el_volume = 1, el_muted = False, el_playbackRate = 1, play_calls = 1\<rparr>)
   \<and> handleProgressClick 260
      (Some \<lparr>src = ''a.mp3'', paused = True, el_currentTime = 0, el_duration = NaN,
             el_volume = 1, el_muted = False, el_playbackRate = 1, play_calls = 0\<rparr>)
      (Some \<lparr>rect_left = 60, rect_width = 400\<rparr>) AudioPlayer_init
    = Inr (AudioPlayer_init,
           Some \<lparr>src = ''a.mp3'', paused = True, el_currentTime = 0, el_duration = NaN,
             el_volume = 1, el_muted = False, el_playbackRate = 1, play_calls = 0\<rparr>)"
  using handleProgressClick_seek[of
      "\<lparr>src = ''a.mp4'', paused = False, el_currentTime = 7, el_duration = Fin 100,
             el_volume = 1, el_muted = False, el_playbackRate = 1, play_calls = 1\<rparr>"
      100 "\<lparr>rect_left = 60, rect_width = 400\<rparr>" 260 DirectVideoPlayer_init]
    handleProgressClick_seek[of
      "\<lparr>src = ''a.mp4'', paused = False, el_currentTime = 7, el_duration = Fin 100,
             el_volume = 1, el_muted = False, el_playbackRate = 1, play_calls = 1\<rparr>"
      100 "\<lparr>rect_left = 60, rect_width = 400\<rparr>" 12 DirectVideoPlayer_init]
    handleProgressClick_seek[of
      "\<lparr>src = ''a.mp4'', paused = False, el_currentTime = 7, el_duration = Fin 100,
             el_volume = 1, el_muted = False, el_playbackRate = 1, play_calls = 1\<rparr>"
      100 "\<lparr>rect_left = 60, rect_width = 400\<rparr>" 475 DirectVideoPlayer_init]
    handleProgressClick_seek[of
      "\<lparr>src = ''a.mp3'', paused = True, el_currentTime = 0, el_duration = NaN,
             el_volume = 1, el_muted = False, el_playbackRate = 1, play_calls = 0\<rparr>"
      _ _ 260 AudioPlayer_init "Some \<lparr>rect_left = 60, rect_width = 400\<rparr>"]
  by simp


section \<open>Changing the item\<close>

text \<open>
  C7, as it is stated, fails in the audio player: the repeat toggle, switched on, is
  still on after the item has changed, so volume, mute and rate are not the only state
  that an item change keeps.
\<close>

theorem item_change_counterexample:
  "repeat (fst (AudioPlayer_item_change ''https://example.com/b.mp3''
      (Some \<lparr>src = ''https://example.com/a.mp3'', paused = False, el_currentTime = 12,
             el_duration = Fin 180, el_volume = 0.75, el_muted = False, el_playbackRate = 1,
             play_calls = 1\<rparr>)
      (toggleRepeat AudioPlayer_init)))
   \<and> \<not> repeat AudioPlayer_init"
  by (simp add: AudioPlayer_item_change_def AudioPlayer_load_def AudioPlayer_reset_image_def
      toggleRepeat_def AudioPlayer_init_def isMegaLink_def)

text \<open>
  C7, amended. While a native player stays mounted with its media element, a change of
  the item sets elapsed time, duration and buffered fraction to 0, the quality label
  (video) to the empty string, stops playback (the flag is off and the element is
  paused on the new source), shows the loading state and closes the speed menu; the
  audio player also forgets the state of its cover image, and runs its effect only for
  a link that is not a Mega link. Volume, mute flag, remembered volume and playback rate
  keep their values, and the element gets the volume and the rate again. The fields that
  do not belong to an item keep their values as well: the fullscreen flag, the
  visibility of the controls and the hover preview in the video player, the repeat
  toggle in the audio player.
\<close>

theorem item_change_resets_session:
  "(DirectVideoPlayer_load link (Some v) s = (s', ref') \<longrightarrow>
      currentTime s' = 0 \<and> duration s' = Fin 0 \<and> buffered s' = 0 \<and> detectedQuality s' = []
      \<and> \<not> playing s' \<and> loading s' \<and> \<not> showSettings s'
      \<and> volume s' = volume s \<and> muted s' = muted s \<and> prevVolume s' = prevVolume s
      \<and> playbackRate s' = playbackRate s
      \<and> isFullscreen s' = isFullscreen s \<and> showControls s' = showControls s
      \<and> hoverTime s' = hoverTime s \<and> hoverPos s' = hoverPos s
      \<and> ref' = Some (v\<lparr>src := link, paused := True, el_currentTime := 0, el_duration := NaN,
                         el_volume := volume s, el_muted := False,
                         el_playbackRate := playbackRate s\<rparr>))
   \<and> (\<not> isMegaLink track \<and> AudioPlayer_item_change track (Some a) t = (t', aref') \<longrightarrow>
      currentTime t' = 0 \<and> duration t' = Fin 0 \<and> buffered t' = 0
      \<and> \<not> playing t' \<and> loading t' \<and> \<not> showSpeed t' \<and> \<not> imgLoaded t' \<and> \<not> imgError t'
      \<and> volume t' = volume t \<and> muted t' = muted t \<and> prevVolume t' = prevVolume t
      \<and> speed t' = speed t \<and> repeat t' = repeat t
      \<and> aref' = Some (a\<lparr>src := track, paused := True, el_currentTime := 0, el_duration := NaN,
                          el_volume := volume t, el_playbackRate := speed t\<rparr>))"
  by (auto simp: DirectVideoPlayer_load_def AudioPlayer_item_change_def AudioPlayer_load_def
      AudioPlayer_reset_image_def load_def pause_def)

theorem item_change_resets_session_witness:
  "fst (DirectVideoPlayer_load ''https://example.com/b.mp4''
      (Some \<lparr>src = ''https://example.com/a.mp4'', paused = False, el_currentTime = 12,
             el_duration = Fin 180, el_volume = 0, el_muted = False, el_playbackRate = 1,
             play_calls = 1\<rparr>)
      (toggleMute (DirectVideoPlayer_init\<lparr>playing := True, currentTime := 12,
          duration := Fin 180, isFullscreen := True\<rparr>)))
    = DirectVideoPlayer_init\<lparr>muted := True, isFullscreen := True\<rparr>
   \<and> fst (AudioPlayer_item_change ''https://example.com/b.mp3''
      (Some \<lparr>src = ''https://example.com/a.mp3'', paused = False, el_currentTime = 12,
             el_duration = Fin 180, el_volume = 0.75, el_muted = False, el_playbackRate = 1,
             play_calls = 1\<rparr>)
      (toggleRepeat (AudioPlayer_init\<lparr>playing := True, currentTime := 12,
          duration := Fin 180\<rparr>)))
    = AudioPlayer_init\<lparr>repeat := True\<rparr>"
proof -
  let ?v = "\<lparr>src = ''https://example.com/a.mp4'', paused = False, el_currentTime = 12,
             el_duration = Fin 180, el_volume = 0, el_muted = False, el_playbackRate = 1,
             play_calls = 1\<rparr>"
  let ?s = "toggleMute (DirectVideoPlayer_init\<lparr>playing := True, currentTime := 12,
          duration := Fin 180, isFullscreen := True\<rparr>)"
  let ?a = "\<lparr>src = ''https://example.com/a.mp3'', paused = False, el_currentTime = 12,
             el_duration = Fin 180, el_volume = 0.75, el_muted = False, el_playbackRate = 1,
             play_calls = 1\<rparr>"
  let ?t = "toggleRepeat (AudioPlayer_init\<lparr>playing := True, currentTime := 12,
          duration := Fin 180\<rparr>)"
  have m: "\<not> isMegaLink ''https://example.com/b.mp3''" by code_simp
  obtain s' r' where e1: "DirectVideoPlayer_load ''https://example.com/b.mp4'' (Some ?v) ?s = (s', r')"
    by (cases "DirectVideoPlayer_load ''https://example.com/b.mp4'' (Some ?v) ?s") blast
  obtain t' q' where e2: "AudioPlayer_item_change ''https://example.com/b.mp3'' (Some ?a) ?t = (t', q')"
    by (cases "AudioPlayer_item_change ''https://example.com/b.mp3'' (Some ?a) ?t") blast
  note w = item_change_resets_session[of "''https://example.com/b.mp4''" ?v ?s s' r'
      "''https://example.com/b.mp3''" ?a ?t t' q']
  have "s' = DirectVideoPlayer_init\<lparr>muted := True, isFullscreen := True\<rparr>"
    using w e1 by (simp add: toggleMute_def DirectVideoPlayer_init_def)
  moreover have "t' = AudioPlayer_init\<lparr>repeat := True\<rparr>"
    using w e2 m by (simp add: toggleRepeat_def AudioPlayer_init_def)
  ultimately show ?thesis using e1 e2 by simp
qed

section \<open>The end of a track\<close>

text \<open>
  C10. In the audio player, with the repeat toggle on, the handler of the ended event
  does not call \<^verbatim>\<open>onEnded\<close>, whatever the reference holds; with an element behind the
  reference it sets the time of the element to 0 and asks it to play, on the same source.
  With the toggle off it calls \<^verbatim>\<open>onEnded\<close> once and leaves the element alone.
\<close>

theorem handleEnded_repeat:
  "(repeat s \<longrightarrow>
      handleEnded s (Some a) h
        = (Some (a\<lparr>el_currentTime := 0, play_calls := Suc (play_calls a)\<rparr>), h)
      \<and> snd (handleEnded s ref h) = h)
   \<and> (\<not> repeat s \<longrightarrow>
      handleEnded s ref h = (ref, h\<lparr>onEnded_calls := Suc (onEnded_calls h)\<rparr>))"
  by (simp add: handleEnded_def play_def onEnded_def split: option.splits)

theorem handleEnded_repeat_witness:
  "handleEnded (toggleRepeat AudioPlayer_init)
      (Some \<lparr>src = ''a.mp3'', paused = True, el_currentTime = 180, el_duration = Fin 180,
             el_volume = 0.75, el_muted = False, el_playbackRate = 1, play_calls = 1\<rparr>)
      \<lparr>onEnded_calls = 0\<rparr>
    = (Some \<lparr>src = ''a.mp3'', paused = True, el_currentTime = 0, el_duration = Fin 180,
             el_volume = 0.75, el_muted = False, el_playbackRate = 1, play_calls = 2\<rparr>,
       \<lparr>onEnded_calls = 0\<rparr>)
   \<and> handleEnded AudioPlayer_init
      (Some \<lparr>src = ''a.mp3'', paused = True, el_currentTime = 180, el_duration = Fin 180,
             el_volume = 0.75, el_muted = False, el_playbackRate = 1, play_calls = 1\<rparr>)
      \<lparr>onEnded_calls = 0\<rparr>
    = (Some \<lparr>src = ''a.mp3'', paused = True, el_currentTime = 180, el_duration = Fin 180,
             el_volume = 0.75, el_muted = False, el_playbackRate = 1, play_calls = 1\<rparr>,
       \<lparr>onEnded_calls = 1\<rparr>)"
  using handleEnded_repeat[of "toggleRepeat AudioPlayer_init"
      "\<lparr>src = ''a.mp3'', paused = True, el_currentTime = 180, el_duration = Fin 180,
             el_volume = 0.75, el_muted = False, el_playbackRate = 1, play_calls = 1\<rparr>"
      "\<lparr>onEnded_calls = 0\<rparr>"]
    handleEnded_repeat[of AudioPlayer_init _ "\<lparr>onEnded_calls = 0\<rparr>"
      "Some \<lparr>src = ''a.mp3'', paused = True, el_currentTime = 180, el_duration = Fin 180,
             el_volume = 0.75, el_muted = False, el_playbackRate = 1, play_calls = 1\<rparr>"]
  by (simp add: toggleRepeat_def AudioPlayer_init_def)

section \<open>Polling for the external player\<close>

lemma poll_never_available:
  assumes "\<forall>t. window_YT t = None"
  shows "timer i \<Longrightarrow> \<not> destroyed i \<Longrightarrow> attempts i < 50 \<Longrightarrow>
         poll window_YT now (i, c) =
           (now + 200 * (50 - attempts i), i\<lparr>attempts := 50, timer := False\<rparr>,
            c\<lparr>yt_loading := False\<rparr>)"
proof (induction "50 - attempts i" arbitrary: i now)
  case 0
  then show ?case by simp
next
  case (Suc n)
  let ?i = "i\<lparr>timer := False, attempts := attempts i + 1\<rparr>"
  show ?case
  proof (cases "attempts i + 1 < 50")
    case True
    have c: "check (window_YT (now + 200)) (i\<lparr>timer := False\<rparr>, c) = (?i\<lparr>timer := True\<rparr>, c)"
      using assms Suc.prems True by (simp add: check_def Let_def)
    have "poll window_YT (now + 200) (?i\<lparr>timer := True\<rparr>, c) =
           (now + 200 + 200 * (50 - attempts (?i\<lparr>timer := True\<rparr>)),
            ?i\<lparr>timer := True\<rparr>\<lparr>attempts := 50, timer := False\<rparr>, c\<lparr>yt_loading := False\<rparr>)"
      using Suc.hyps(2) Suc.prems True by (intro Suc.hyps(1)) auto
    then show ?thesis
      using Suc.prems True c by (subst poll.simps) (simp add: algebra_simps)
  next
    case False
    have c: "check (window_YT (now + 200)) (i\<lparr>timer := False\<rparr>, c) = (?i, c\<lparr>yt_loading := False\<rparr>)"
      using assms Suc.prems False by (simp add: check_def Let_def)
    have a: "attempts i = 49" using False Suc.prems by simp
    have "poll window_YT (now + 200) (?i, c\<lparr>yt_loading := False\<rparr>)
            = (now + 200, ?i, c\<lparr>yt_loading := False\<rparr>)"
      by (subst poll.simps) simp
    then show ?thesis
      using Suc.prems c a by (subst poll.simps) simp
  qed
qed

lemma quality_of_errorState: "errorState (quality_of c) = errorState c"
  by (simp add: quality_of_def split: option.splits js_call.splits)

lemma suggestion_of_errorState: "errorState (suggestion_of c) = errorState c"
  by (simp add: suggestion_of_def Let_def split: option.splits js_call.splits)

lemma errorState_only_onError:
  assumes "errorState (snd (deliver ev (j, d)))" and "\<not> errorState d"
  shows "ev = Error"
proof (cases ev)
  case Ready
  then show ?thesis using assms by (simp add: onReady_def split: if_splits)
next
  case (StateChange data)
  then show ?thesis
    using assms
    by (cases data)
       (simp_all add: onStateChange_def quality_of_errorState suggestion_of_errorState
          split: if_splits)
next
  case (PlaybackQualityChange q)
  then show ?thesis using assms by (simp add: onPlaybackQualityChange_def split: if_splits)
next
  case Error
  then show ?thesis by simp
next
  case (Timeout yt)
  then show ?thesis
    using assms by (cases yt) (simp_all add: check_def init_def Let_def split: if_splits)
qed

text \<open>
  C8, as it is stated, fails for a link that the dispatcher gives to YouTubePlayer and
  that holds no identifier, such as a playlist link: the effect returns at once, no
  instance is started, nothing is polled, and the loading flag, set at the mount, is
  never cleared, also when \<^verbatim>\<open>window.YT.Player\<close> never becomes available.
\<close>

theorem no_identifier_counterexample:
  "VideoPlayer ''https://www.youtube.com/playlist?list=PL123'' = YouTubePlayer
   \<and> getYTVideoId ''https://www.youtube.com/playlist?list=PL123'' = []
   \<and> YouTubePlayer_effect None (getYTVideoId ''https://www.youtube.com/playlist?list=PL123'')
         (YouTubePlayer_init ''https://www.youtube.com/playlist?list=PL123'')
       = (None, YouTubePlayer_init ''https://www.youtube.com/playlist?list=PL123'')
   \<and> yt_loading (YouTubePlayer_init ''https://www.youtube.com/playlist?list=PL123'')"
proof -
  have v: "VideoPlayer ''https://www.youtube.com/playlist?list=PL123'' = YouTubePlayer"
    by code_simp
  have g: "getYTVideoId ''https://www.youtube.com/playlist?list=PL123'' = []"
    by code_simp
  have e: "YouTubePlayer_effect None []
         (YouTubePlayer_init ''https://www.youtube.com/playlist?list=PL123'')
       = (None, YouTubePlayer_init ''https://www.youtube.com/playlist?list=PL123'')"
    by (simp add: YouTubePlayer_effect_def)
  have l: "yt_loading (YouTubePlayer_init ''https://www.youtube.com/playlist?list=PL123'')"
    by (simp add: YouTubePlayer_init_def)
  show ?thesis unfolding g using v e l by simp
qed

text \<open>
  C8, amended. When \<^verbatim>\<open>window.YT.Player\<close> is absent at all times and the link has an
  identifier, the effect starts an instance whose first call of \<^verbatim>\<open>check\<close> sets a timeout,
  and the timeouts of that instance, fired 200 ms apart while it is not torn down, end by
  themselves: the last call comes 9800 ms after the first, it is the fiftieth (the
  counter stands at 50), no timeout is pending after it, and the state of the component
  is the one before the effect with the loading flag cleared. The error flag is as it
  was: off on a component that has just been mounted, which is then neither loading nor
  ready nor in error, and has no player. The error flag is on after \<^verbatim>\<open>onError\<close> of a
  live instance, and no other callback raises it. For a link without an identifier the
  effect starts no instance and leaves the state, the loading flag included, as it was.
\<close>

theorem polling_gives_up:
  assumes "\<forall>t. window_YT t = None" and "vid \<noteq> []"
  shows "\<exists>i. YouTubePlayer_effect (window_YT 0) vid c = (Some i, c)
           \<and> attempts i = 1 \<and> timer i
           \<and> poll window_YT 0 (i, c)
               = (9800, \<lparr>videoId = vid, destroyed = False, attempts = 50, timer = False\<rparr>,
                  c\<lparr>yt_loading := False\<rparr>)
           \<and> \<not> yt_loading (c\<lparr>yt_loading := False\<rparr>)
           \<and> errorState (c\<lparr>yt_loading := False\<rparr>) = errorState c
           \<and> \<not> errorState ((YouTubePlayer_init link)\<lparr>yt_loading := False\<rparr>)
           \<and> \<not> ready ((YouTubePlayer_init link)\<lparr>yt_loading := False\<rparr>)
           \<and> playerRef ((YouTubePlayer_init link)\<lparr>yt_loading := False\<rparr>) = None
           \<and> errorState (onError i c)
           \<and> (errorState (snd (deliver ev (j, d))) \<and> \<not> errorState d \<longrightarrow> ev = Error)
           \<and> YouTubePlayer_effect yt [] c = (None, c)"
proof -
  let ?i = "\<lparr>videoId = vid, destroyed = False, attempts = 1, timer = True\<rparr>"
  have e: "YouTubePlayer_effect (window_YT 0) vid c = (Some ?i, c)"
    using assms by (simp add: YouTubePlayer_effect_def check_def Let_def)
  have p: "poll window_YT 0 (?i, c)
             = (0 + 200 * (50 - attempts ?i), ?i\<lparr>attempts := 50, timer := False\<rparr>,
                c\<lparr>yt_loading := False\<rparr>)"
    using assms(1) by (intro poll_never_available) simp_all
  have "errorState (onError ?i c)" by (simp add: onError_def)
  moreover have "\<not> errorState ((YouTubePlayer_init link)\<lparr>yt_loading := False\<rparr>)"
    "\<not> ready ((YouTubePlayer_init link)\<lparr>yt_loading := False\<rparr>)"
    "playerRef ((YouTubePlayer_init link)\<lparr>yt_loading := False\<rparr>) = None"
    by (simp_all add: YouTubePlayer_init_def)
  moreover have "errorState (snd (deliver ev (j, d))) \<and> \<not> errorState d \<longrightarrow> ev = Error"
    using errorState_only_onError by blast
  moreover have "YouTubePlayer_effect yt [] c = (None, c)"
    by (simp add: YouTubePlayer_effect_def)
  ultimately show ?thesis using e p by simp
qed

theorem polling_gives_up_witness:
  "snd (snd (poll (\<lambda>t. None) 0
       (the (fst (YouTubePlayer_effect None ''dQw4w9WgXcQ''
                    (YouTubePlayer_init ''https://youtu.be/dQw4w9WgXcQ''))),
        YouTubePlayer_init ''https://youtu.be/dQw4w9WgXcQ'')))
     = (YouTubePlayer_init ''https://youtu.be/dQw4w9WgXcQ'')\<lparr>yt_loading := False\<rparr>
   \<and> fst (poll (\<lambda>t. None) 0
       (the (fst (YouTubePlayer_effect None ''dQw4w9WgXcQ''
                    (YouTubePlayer_init ''https://youtu.be/dQw4w9WgXcQ''))),
        YouTubePlayer_init ''https://youtu.be/dQw4w9WgXcQ'')) = 9800"
proof -
  have n: "''dQw4w9WgXcQ'' \<noteq> []" by simp
  have a: "\<forall>t::nat. (\<lambda>t. None :: YT) t = None" by simp
  from polling_gives_up[OF a n, where c = "YouTubePlayer_init ''https://youtu.be/dQw4w9WgXcQ''"
      and link = "''https://youtu.be/dQw4w9WgXcQ''" and ev = Error
      and j = "\<lparr>videoId = ''dQw4w9WgXcQ'', destroyed = False, attempts = 0, timer = False\<rparr>"
      and d = "YouTubePlayer_init ''https://youtu.be/dQw4w9WgXcQ''" and yt = None]
  obtain i where "YouTubePlayer_effect None ''dQw4w9WgXcQ''
        (YouTubePlayer_init ''https://youtu.be/dQw4w9WgXcQ'')
         = (Some i, YouTubePlayer_init ''https://youtu.be/dQw4w9WgXcQ'')"
    and "poll (\<lambda>t. None) 0 (i, YouTubePlayer_init ''https://youtu.be/dQw4w9WgXcQ'')
               = (9800, \<lparr>videoId = ''dQw4w9WgXcQ'', destroyed = False, attempts = 50, timer = False\<rparr>,
                  (YouTubePlayer_init ''https://youtu.be/dQw4w9WgXcQ'')\<lparr>yt_loading := False\<rparr>)"
    by auto
  then show ?thesis by simp
qed

section \<open>Callbacks that arrive after teardown\<close>

lemma deliver_destroyed:
  "destroyed i \<Longrightarrow> deliver ev (i, c) = (i\<lparr>timer := False\<rparr>, c) \<or> deliver ev (i, c) = (i, c)"
  by (cases ev)
     (simp_all add: onReady_def onStateChange_def onPlaybackQualityChange_def onError_def check_def)

lemma deliver_destroyed_state: "destroyed i \<Longrightarrow> snd (deliver ev (i, c)) = c"
  using deliver_destroyed[of i ev c] by auto

lemma deliver_destroyed_stays: "destroyed i \<Longrightarrow> destroyed (fst (deliver ev (i, c)))"
  using deliver_destroyed[of i ev c] by auto

lemma deliver_all_destroyed:
  "destroyed i \<Longrightarrow> snd (fold deliver evs (i, c)) = c \<and> destroyed (fst (fold deliver evs (i, c)))"
proof (induction evs arbitrary: i)
  case Nil
  then show ?case by simp
next
  case (Cons ev evs)
  obtain j where j: "deliver ev (i, c) = (j, c)" and dj: "destroyed j"
    using deliver_destroyed[of i ev c] Cons.prems by auto
  show ?case using Cons.IH[OF dj] j by simp
qed

text \<open>
  C9. Once the cleanup of an instance has run, its liveness flag is set, and every
  callback of that instance (\<^verbatim>\<open>onReady\<close>, \<^verbatim>\<open>onStateChange\<close> with any state,
  \<^verbatim>\<open>onPlaybackQualityChange\<close>, \<^verbatim>\<open>onError\<close>, a call of \<^verbatim>\<open>check\<close> from a pending timeout),
  and every sequence of them, leaves the state of the component as it finds it, whatever
  that state is: in particular the state that belongs to the item selected since, and
  the count of calls to the host's \<^verbatim>\<open>onEnded\<close>, which is part of it.
\<close>

theorem late_callbacks_ignored:
  "snd (deliver ev (fst (cleanup (i, c0)), c)) = c
   \<and> snd (fold deliver evs (fst (cleanup (i, c0)), c)) = c
   \<and> destroyed (fst (cleanup (i, c0)))
   \<and> onReady (fst (cleanup (i, c0))) c = c
   \<and> onStateChange (fst (cleanup (i, c0))) data c = c
   \<and> onPlaybackQualityChange (fst (cleanup (i, c0))) q c = c
   \<and> onError (fst (cleanup (i, c0))) c = c
   \<and> snd (check yt (fst (cleanup (i, c0)), c)) = c"
proof -
  have d: "destroyed (fst (cleanup (i, c0)))" by (simp add: cleanup_def)
  show ?thesis
    using d deliver_destroyed_state[OF d] deliver_all_destroyed[OF d]
    by (simp add: onReady_def onStateChange_def onPlaybackQualityChange_def onError_def check_def)
qed

end
